theory Spec2Isabelle
  imports Complex_Main
begin

section \<open>Tensors of the notebook\<close>

text \<open>
  The notebook \<^verbatim>\<open>notebooks/simple-occupancy.ipynb\<close> computes with tensors of real
  numbers. The numbers are modelled as \<^typ>\<open>real\<close>: rounding, overflow to an infinity and
  the not-a-number of the 32-bit floats are outside the model. A tensor of shape \<open>(R, C)\<close>
  is the list of its \<open>R\<close> rows, each a list of \<open>C\<close> numbers; a tensor of shape \<open>(B,)\<close>
  is a list of \<open>B\<close> numbers.
\<close>

type_synonym tensor1 = "real list"
type_synonym tensor2 = "real list list"

definition unsqueeze1 :: "'a list \<Rightarrow> 'a list list" where
  \<comment> \<open>\<^verbatim>\<open>t.unsqueeze(1)\<close>: shape \<open>(B,)\<close> to shape \<open>(B, 1)\<close>.\<close>
  "unsqueeze1 v = map (\<lambda>a. [a]) v"

definition as_row :: "'a list \<Rightarrow> 'a list list" where
  \<comment> \<open>Broadcasting aligns shapes at the last dimension: next to a tensor of two dimensions,
      a tensor of shape \<open>(B,)\<close> is read as one of shape \<open>(1, B)\<close>.\<close>
  "as_row v = [v]"

definition stretch :: "nat \<Rightarrow> 'a list \<Rightarrow> 'a list" where
  \<comment> \<open>Broadcasting along one dimension: a dimension of size 1 is repeated to size \<open>n\<close>.\<close>
  "stretch n xs = (if length xs = 1 then replicate n (hd xs) else xs)"

definition ncols :: "'a list list \<Rightarrow> nat" where
  "ncols A = (case A of [] \<Rightarrow> 0 | r # _ \<Rightarrow> length r)"

definition broadcast :: "(real \<Rightarrow> real \<Rightarrow> real) \<Rightarrow> tensor2 \<Rightarrow> tensor2 \<Rightarrow> tensor2" where
  \<comment> \<open>An elementwise binary operation of two tensors of two dimensions whose sizes agree or
      are 1 in each dimension (the library raises on any other pair of shapes; the tensors
      of one minibatch never form one).\<close>
  "broadcast f A B =
     (let r = max (length A) (length B);
          c = max (ncols A) (ncols B)
      in map2 (\<lambda>a b. map2 f (stretch c a) (stretch c b)) (stretch r A) (stretch r B))"

definition cat1 :: "tensor2 \<Rightarrow> tensor2 \<Rightarrow> tensor2" where
  \<comment> \<open>\<^verbatim>\<open>torch.cat((A, B), dim=1)\<close>: the rows are joined.\<close>
  "cat1 A B = map2 (@) A B"

definition logsumexp :: "real list \<Rightarrow> real" where
  \<comment> \<open>The library's stable log-sum-exp of a non-empty row: the maximum is subtracted before
      the exponentials are taken and added back after the logarithm.\<close>
  "logsumexp xs =
     (let m = fold max (tl xs) (hd xs)
      in m + ln (sum_list (map (\<lambda>a. exp (a - m)) xs)))"

definition logsumexp1 :: "tensor2 \<Rightarrow> tensor1" where
  \<comment> \<open>\<^verbatim>\<open>torch.logsumexp(A, dim=1)\<close>: the reduced dimension is dropped, shape \<open>(B, C)\<close> to
      shape \<open>(B,)\<close>.\<close>
  "logsumexp1 A = map logsumexp A"

definition mean :: "tensor2 \<Rightarrow> real" where
  \<comment> \<open>\<^verbatim>\<open>torch.mean\<close> of a tensor with at least one element: the sum of all elements over
      their number.\<close>
  "mean A = sum_list (concat A) / real (length (concat A))"

section \<open>The binomial distribution of the library\<close>

definition log_factorial :: "nat \<Rightarrow> real" where
  \<comment> \<open>\<^verbatim>\<open>torch.lgamma(m + 1)\<close> at a natural number \<open>m\<close>.\<close>
  "log_factorial m = ln (fact m)"

definition binomial_log_prob :: "nat \<Rightarrow> real \<Rightarrow> nat \<Rightarrow> real" where
  \<comment> \<open>\<^verbatim>\<open>Binomial(total_count=k, probs=p).log_prob(y)\<close> for a count \<open>y \<le> k\<close> and
      \<open>0 < p < 1\<close>: the log-gamma form of the logarithm of the binomial mass. The library's
      own guard of \<open>p\<close> against the float values 0 and 1 is \<open>clamp_probs\<close> below, the
      identity between its two bounds.\<close>
  "binomial_log_prob k p y =
     log_factorial k - log_factorial y - log_factorial (k - y)
       + real y * ln p + real (k - y) * ln (1 - p)"

definition binomial_pmf :: "nat \<Rightarrow> real \<Rightarrow> nat \<Rightarrow> real" where
  \<comment> \<open>The binomial mass function itself, for comparison.\<close>
  "binomial_pmf k p y = real (k choose y) * p ^ y * (1 - p) ^ (k - y)"

section \<open>The marginal likelihood of the training step\<close>

text \<open>
  The body of the training loop, from the masks to the loss. \<open>psi_i\<close>, \<open>p_i\<close> and \<open>y_i\<close> are
  the tensors of shape \<open>(B, 1)\<close> of one minibatch; the counts \<open>y_i\<close> are whole numbers.
\<close>

definition definitely_present :: "nat list list \<Rightarrow> tensor2" where
  \<comment> \<open>\<^verbatim>\<open>(y_i > 0).to(dtype=torch.float32)\<close>\<close>
  "definitely_present y_i = map (map (\<lambda>y. if y > 0 then 1 else 0)) y_i"

definition maybe_absent :: "nat list list \<Rightarrow> tensor2" where
  \<comment> \<open>\<^verbatim>\<open>(y_i == 0).to(dtype=torch.float32)\<close>\<close>
  "maybe_absent y_i = map (map (\<lambda>y. if y = 0 then 1 else 0)) y_i"

definition log_prob_binomial :: "nat \<Rightarrow> tensor2 \<Rightarrow> nat list list \<Rightarrow> tensor2" where
  \<comment> \<open>\<^verbatim>\<open>y_dist_if_present.log_prob(y_i)\<close>, elementwise on two tensors of one shape.\<close>
  "log_prob_binomial k p_i y_i = map2 (map2 (binomial_log_prob k)) p_i y_i"

definition lp_present :: "nat \<Rightarrow> tensor2 \<Rightarrow> tensor2 \<Rightarrow> nat list list \<Rightarrow> tensor2" where
  \<comment> \<open>\<^verbatim>\<open>torch.log(psi_i) + y_dist_if_present.log_prob(y_i)\<close>\<close>
  "lp_present k psi_i p_i y_i =
     broadcast (+) (map (map ln) psi_i) (log_prob_binomial k p_i y_i)"

definition lp_maybe_absent :: "nat \<Rightarrow> tensor2 \<Rightarrow> tensor2 \<Rightarrow> nat list list \<Rightarrow> tensor1" where
  \<comment> \<open>\<^verbatim>\<open>torch.logsumexp(torch.cat((lp_present, torch.log(1 - psi_i)), dim=1), dim=1)\<close>\<close>
  "lp_maybe_absent k psi_i p_i y_i =
     logsumexp1 (cat1 (lp_present k psi_i p_i y_i) (map (map (\<lambda>s. ln (1 - s))) psi_i))"

definition log_prob :: "nat \<Rightarrow> tensor2 \<Rightarrow> tensor2 \<Rightarrow> nat list list \<Rightarrow> tensor2" where
  \<comment> \<open>\<^verbatim>\<open>definitely_present * lp_present + maybe_absent * lp_maybe_absent\<close>\<close>
  "log_prob k psi_i p_i y_i =
     broadcast (+)
       (broadcast (*) (definitely_present y_i) (lp_present k psi_i p_i y_i))
       (broadcast (*) (maybe_absent y_i) (as_row (lp_maybe_absent k psi_i p_i y_i)))"

definition loss :: "nat \<Rightarrow> tensor2 \<Rightarrow> tensor2 \<Rightarrow> nat list list \<Rightarrow> real" where
  \<comment> \<open>\<^verbatim>\<open>-torch.mean(log_prob)\<close>\<close>
  "loss k psi_i p_i y_i = - mean (log_prob k psi_i p_i y_i)"

definition site_log_prob :: "nat \<Rightarrow> real \<Rightarrow> real \<Rightarrow> nat \<Rightarrow> real" where
  \<comment> \<open>The log-likelihood of one site: the only element of \<open>log_prob\<close> on the minibatch that
      holds this site alone.\<close>
  "site_log_prob k s p y = hd (hd (log_prob k [[s]] [[p]] [[y]]))"

text \<open>
  A minibatch as the list of its sites, each site the triple \<open>(\<psi>, p, y)\<close> of the two model
  outputs and the observed count; the three tensors of shape \<open>(B, 1)\<close> are its columns.
\<close>

type_synonym site = "real \<times> real \<times> nat"

definition psi_column :: "site list \<Rightarrow> tensor2" where
  "psi_column S = unsqueeze1 (map fst S)"

definition p_column :: "site list \<Rightarrow> tensor2" where
  "p_column S = unsqueeze1 (map (fst \<circ> snd) S)"

definition y_column :: "site list \<Rightarrow> nat list list" where
  "y_column S = unsqueeze1 (map (snd \<circ> snd) S)"

definition in_data_model :: "nat \<Rightarrow> site \<Rightarrow> bool" where
  \<comment> \<open>The range in which the real-valued model is the program: probabilities strictly
      between 0 and 1, a count of at most \<open>k\<close>.\<close>
  "in_data_model k t = (case t of (s, p, y) \<Rightarrow> 0 < s \<and> s < 1 \<and> 0 < p \<and> p < 1 \<and> y \<le> k)"

definition present_term :: "nat \<Rightarrow> site \<Rightarrow> real" where
  \<comment> \<open>The element of \<open>lp_present\<close> of a site.\<close>
  "present_term k t = (case t of (s, p, y) \<Rightarrow> ln s + binomial_log_prob k p y)"

definition absent_term :: "nat \<Rightarrow> site \<Rightarrow> real" where
  \<comment> \<open>The element of \<open>lp_maybe_absent\<close> of a site.\<close>
  "absent_term k t = (case t of (s, p, y) \<Rightarrow> logsumexp [present_term k t, ln (1 - s)])"

definition ind_pos :: "nat \<Rightarrow> real" where
  "ind_pos y = (if y > 0 then 1 else 0)"

definition ind_zero :: "nat \<Rightarrow> real" where
  "ind_zero y = (if y = 0 then 1 else 0)"

subsection \<open>The arguments of the logarithms\<close>

definition torch_log :: "real \<Rightarrow> real option" where
  \<comment> \<open>\<^verbatim>\<open>torch.log\<close> with its domain: a finite number for a positive argument only; \<open>None\<close>
      stands for the library's results at zero (minus infinity) and below (not a number).\<close>
  "torch_log a = (if 0 < a then Some (ln a) else None)"

definition log_psi :: "tensor2 \<Rightarrow> real option list list" where
  \<comment> \<open>\<^verbatim>\<open>torch.log(psi_i)\<close>, the first term of \<open>lp_present\<close>.\<close>
  "log_psi psi_i = map (map torch_log) psi_i"

definition log_not_psi :: "tensor2 \<Rightarrow> real option list list" where
  \<comment> \<open>\<^verbatim>\<open>torch.log(1 - psi_i)\<close>, the second column under the log-sum-exp.\<close>
  "log_not_psi psi_i = map (map (\<lambda>s. torch_log (1 - s))) psi_i"

definition eps32 :: real where
  \<comment> \<open>\<^verbatim>\<open>torch.finfo(torch.float32).eps\<close>\<close>
  "eps32 = 1 / 2 ^ 23"

definition clamp_probs :: "real \<Rightarrow> real" where
  \<comment> \<open>The guard of the library's \<^verbatim>\<open>Binomial\<close> on its \<^verbatim>\<open>probs\<close>, taken before the logit:
      \<^verbatim>\<open>probs.clamp(min=eps, max=1 - eps)\<close>.\<close>
  "clamp_probs q = min (max q eps32) (1 - eps32)"

definition log_p :: "tensor2 \<Rightarrow> real option list list" where
  \<comment> \<open>\<^verbatim>\<open>torch.log(ps_clamped)\<close>, the first logarithm of the logit of \<open>p_i\<close> inside
      \<^verbatim>\<open>y_dist_if_present.log_prob\<close>.\<close>
  "log_p p_i = map (map (\<lambda>q. torch_log (clamp_probs q))) p_i"

definition log_not_p :: "tensor2 \<Rightarrow> real option list list" where
  \<comment> \<open>\<^verbatim>\<open>torch.log1p(-ps_clamped)\<close>, the second logarithm of that logit.\<close>
  "log_not_p p_i = map (map (\<lambda>q. torch_log (1 - clamp_probs q))) p_i"

section \<open>The probability model\<close>

record net =
  fc1_weight :: "real list list"
  fc1_bias :: "real list"
  fc2_weight :: "real list list"
  fc2_bias :: "real list"

definition linear :: "real list list \<Rightarrow> real list \<Rightarrow> real list \<Rightarrow> real list" where
  \<comment> \<open>A linear layer on one row \<open>a\<close> of its input: output \<open>j\<close> is the inner product of \<open>a\<close>
      with row \<open>j\<close> of the weight, plus bias \<open>j\<close>.\<close>
  "linear W b a = map2 (\<lambda>w c. sum_list (map2 (*) a w) + c) W b"

definition elu :: "real \<Rightarrow> real" where
  \<comment> \<open>\<^verbatim>\<open>F.elu\<close> with its default \<open>alpha = 1\<close>.\<close>
  "elu a = (if a > 0 then a else exp a - 1)"

definition sigmoid :: "real \<Rightarrow> real" where
  \<comment> \<open>The sigmoid over the reals. The float function of the library rounds: it returns
      exactly 1 from a logit of about 17 on and exactly 0 at large negative logits, so the
      strict bounds of the real function are no property of the program, and nothing below
      rests on them.\<close>
  "sigmoid a = 1 / (1 + exp (- a))"

definition hidden :: "net \<Rightarrow> tensor2 \<Rightarrow> tensor2" where
  \<comment> \<open>\<^verbatim>\<open>F.elu(self.fc1(x))\<close>\<close>
  "hidden N x_i = map (\<lambda>a. map elu (linear (fc1_weight N) (fc1_bias N) a)) x_i"

definition forward :: "net \<Rightarrow> tensor2 \<Rightarrow> tensor2 \<times> tensor2" where
  \<comment> \<open>\<^verbatim>\<open>Net.forward\<close>; \<^verbatim>\<open>output[:, [0]]\<close> and \<^verbatim>\<open>output[:, [1]]\<close> keep the second dimension.
      With the shapes of \<^verbatim>\<open>Net.__init__\<close>, \<^verbatim>\<open>nn.Linear(1, 64)\<close> and \<^verbatim>\<open>nn.Linear(64, 2)\<close>,
      each row of \<open>output\<close> has two numbers.\<close>
  "forward N x_i =
     (let output = map (\<lambda>h. map sigmoid (linear (fc2_weight N) (fc2_bias N) h)) (hidden N x_i);
          psi = map (\<lambda>r. [r ! 0]) output;
          p = map (\<lambda>r. [r ! 1]) output
      in (psi, p))"

section \<open>The data generator\<close>

text \<open>
  The random source of the library is made explicit: a stream of uniform draws from \<open>[0, 1)\<close>
  and a stream of standard normal draws; taking a draw moves the stream on. The samplers
  stand for the values their distributions can give, not for the algorithms of the library
  or the number of draws these take: a uniform sample scales a uniform draw, a Bernoulli
  sample compares one uniform draw with its probability, and a binomial sample counts the
  successes of \<open>k\<close> such comparisons.
\<close>

record rng =
  uniform_draws :: "nat \<Rightarrow> real"
  normal_draws :: "nat \<Rightarrow> real"

definition unit_draws :: "rng \<Rightarrow> bool" where
  \<comment> \<open>The contract of \<^verbatim>\<open>torch.rand\<close>: every uniform draw lies in \<open>[0, 1)\<close>.\<close>
  "unit_draws g \<longleftrightarrow> (\<forall>i. 0 \<le> uniform_draws g i \<and> uniform_draws g i < 1)"

definition rand :: "nat \<Rightarrow> rng \<Rightarrow> real list \<times> rng" where
  "rand m g = (map (uniform_draws g) [0..<m], g\<lparr>uniform_draws := (\<lambda>i. uniform_draws g (m + i))\<rparr>)"

definition randn :: "rng \<Rightarrow> real \<times> rng" where
  "randn g = (normal_draws g 0, g\<lparr>normal_draws := (\<lambda>i. normal_draws g (Suc i))\<rparr>)"

definition uniform_sample :: "real list \<Rightarrow> real list \<Rightarrow> rng \<Rightarrow> real list \<times> rng" where
  \<comment> \<open>\<^verbatim>\<open>Uniform(low, high).sample()\<close>: \<open>low + rand * (high - low)\<close>.\<close>
  "uniform_sample low high g =
     (let (u, g') = rand (length low) g
      in (map2 (\<lambda>(l, h) r. l + r * (h - l)) (zip low high) u, g'))"

definition bernoulli_sample :: "real list \<Rightarrow> rng \<Rightarrow> real list \<times> rng" where
  \<comment> \<open>\<^verbatim>\<open>Bernoulli(probs).sample()\<close>: 1 where the uniform draw is below the probability.\<close>
  "bernoulli_sample probs g =
     (let (u, g') = rand (length probs) g
      in (map2 (\<lambda>r q. if r < q then 1 else 0) u probs, g'))"

fun binomial_sample :: "nat \<Rightarrow> real list \<Rightarrow> rng \<Rightarrow> nat list \<times> rng" where
  "binomial_sample k [] g = ([], g)"
| "binomial_sample k (q # qs) g =
     (let (u, g') = rand k g;
          (ys, g'') = binomial_sample k qs g'
      in (length (filter (\<lambda>r. r < q) u) # ys, g''))"

record simulation =
  sim_x :: "real list"
  sim_p :: "real list"
  sim_psi :: "real list"
  sim_z :: "real list"
  sim_y :: "nat list"

definition generate :: "nat \<Rightarrow> nat \<Rightarrow> rng \<Rightarrow> simulation \<times> rng" where
  \<comment> \<open>The two data cells of the notebook. The three coefficients of \<open>p\<close> are drawn before
      those of \<open>psi\<close>, each in the order intercept, linear, quadratic.\<close>
  "generate n k g0 =
     (let (u, g1) = uniform_sample (replicate n (- 1)) (replicate n 1) g0;
          x = sort u;
          (a0, g2) = randn g1; (a1, g3) = randn g2; (a2, g4) = randn g3;
          p = map (\<lambda>v. sigmoid (a0 + a1 * v + a2 * v\<^sup>2)) x;
          (b0, g5) = randn g4; (b1, g6) = randn g5; (b2, g7) = randn g6;
          psi = map (\<lambda>v. sigmoid (b0 + b1 * v + b2 * v\<^sup>2)) x;
          (z, g8) = bernoulli_sample psi g7;
          (y, g9) = binomial_sample k (map2 (*) p z) g8
      in (\<lparr>sim_x = x, sim_p = p, sim_psi = psi, sim_z = z, sim_y = y\<rparr>, g9))"

text \<open>
  The same two cells with the errors of the library. \<^verbatim>\<open>torch.ones(n)\<close> raises on a negative
  size, before anything is drawn. The constructor of \<^verbatim>\<open>Binomial(total_count=k, probs=p * z)\<close>
  checks its arguments, after \<open>x\<close> and \<open>z\<close> have been drawn, and raises on a negative count;
  on the empty tensors of \<open>n = 0\<close> the check holds of every (that is, of no) element.
\<close>

datatype error =
  NegativeDimension | NegativeCount | EmptyDataset | BatchSizeNotPositive
  | InvalidProbs | OutOfSupport

definition covariates :: "int \<Rightarrow> rng \<Rightarrow> error + real list \<times> rng" where
  \<comment> \<open>The first data cell: \<open>x\<close>, sorted.\<close>
  "covariates n g0 =
     (if n < 0 then Inl NegativeDimension
      else let (u, g1) = uniform_sample (replicate (nat n) (- 1)) (replicate (nat n) 1) g0
           in Inr (sort u, g1))"

definition observations :: "int \<Rightarrow> real list \<Rightarrow> rng \<Rightarrow> error + simulation \<times> rng" where
  \<comment> \<open>The second data cell: \<open>p\<close>, \<open>psi\<close>, \<open>z\<close> and \<open>y\<close> from \<open>x\<close>.\<close>
  "observations k x g1 =
     (let (a0, g2) = randn g1; (a1, g3) = randn g2; (a2, g4) = randn g3;
          p = map (\<lambda>v. sigmoid (a0 + a1 * v + a2 * v\<^sup>2)) x;
          (b0, g5) = randn g4; (b1, g6) = randn g5; (b2, g7) = randn g6;
          psi = map (\<lambda>v. sigmoid (b0 + b1 * v + b2 * v\<^sup>2)) x;
          (z, g8) = bernoulli_sample psi g7
      in if x \<noteq> [] \<and> k < 0 then Inl NegativeCount
         else let (y, g9) = binomial_sample (nat k) (map2 (*) p z) g8
              in Inr (\<lparr>sim_x = x, sim_p = p, sim_psi = psi, sim_z = z, sim_y = y\<rparr>, g9))"

definition data_cells :: "int \<Rightarrow> int \<Rightarrow> rng \<Rightarrow> error + simulation \<times> rng" where
  "data_cells n k g0 =
     (case covariates n g0 of Inl e \<Rightarrow> Inl e | Inr (x, g1) \<Rightarrow> observations k x g1)"

section \<open>The training loop\<close>

definition py_range :: "int \<Rightarrow> int list" where
  \<comment> \<open>Python's \<^verbatim>\<open>range(m)\<close>: empty for \<open>m \<le> 0\<close>.\<close>
  "py_range m = map int [0..<nat m]"

definition data_loader :: "int \<Rightarrow> 'a list \<Rightarrow> error + nat" where
  \<comment> \<open>\<^verbatim>\<open>DataLoader(dataset, batch_size=..., shuffle=True)\<close>: the random sampler of the library
      raises on a data set without examples, then the batch sampler on a batch size below
      1; otherwise the loader deals minibatches of this size.\<close>
  "data_loader batch_size dataset =
     (if dataset = [] then Inl EmptyDataset
      else if batch_size \<le> 0 then Inl BatchSizeNotPositive
      else Inr (nat batch_size))"

definition batches :: "nat \<Rightarrow> 'a list \<Rightarrow> 'a list list" where
  \<comment> \<open>The minibatches of the \<^verbatim>\<open>DataLoader\<close> for a batch size \<open>b > 0\<close>: consecutive runs of
      \<open>b\<close> examples, the last one shorter when \<open>b\<close> does not divide the number of examples.\<close>
  "batches b xs = map (\<lambda>i. take b (drop (i * b) xs)) [0..<(length xs + b - 1) div b]"

record 'o trainer =
  tr_net :: net
  tr_opt :: 'o
  running_loss :: "real list"

definition train_step ::
  "('o \<Rightarrow> net \<Rightarrow> (real \<times> nat) list \<Rightarrow> 'o \<times> net) \<Rightarrow> nat \<Rightarrow> 'o trainer
     \<Rightarrow> (real \<times> nat) list \<Rightarrow> error + 'o trainer" where
  \<comment> \<open>The body of the inner loop on the minibatch \<open>xy\<close>. The constructor of
      \<^verbatim>\<open>Binomial(total_count=k, probs=p_i)\<close> raises on a probability outside \<open>[0, 1]\<close>, and
      \<^verbatim>\<open>log_prob(y_i)\<close> on a count above \<open>k\<close>. \<open>upd\<close> stands for
      \<^verbatim>\<open>loss.backward(); optimizer.step()\<close>, the update of the library's optimizer.\<close>
  "train_step upd k st xy =
     (let x_i = unsqueeze1 (map fst xy);
          y_i = unsqueeze1 (map snd xy);
          (psi_i, p_i) = forward (tr_net st) x_i
      in if \<exists>r\<in>set p_i. \<exists>q\<in>set r. q < 0 \<or> 1 < q then Inl InvalidProbs
         else if \<exists>r\<in>set y_i. \<exists>y\<in>set r. k < y then Inl OutOfSupport
         else let l = loss k psi_i p_i y_i;
                  (o', N') = upd (tr_opt st) (tr_net st) xy
              in Inr \<lparr>tr_net = N', tr_opt = o', running_loss = running_loss st @ [l]\<rparr>)"

fun train_batches ::
  "('o \<Rightarrow> net \<Rightarrow> (real \<times> nat) list \<Rightarrow> 'o \<times> net) \<Rightarrow> nat \<Rightarrow> 'o trainer
     \<Rightarrow> (real \<times> nat) list list \<Rightarrow> error + 'o trainer" where
  \<comment> \<open>\<^verbatim>\<open>for i_batch, xy in enumerate(dataloader): ...\<close>; an error ends the run.\<close>
  "train_batches upd k st [] = Inr st"
| "train_batches upd k st (xy # rest) =
     (case train_step upd k st xy of
        Inl e \<Rightarrow> Inl e
      | Inr st' \<Rightarrow> train_batches upd k st' rest)"

definition train_epoch ::
  "('o \<Rightarrow> net \<Rightarrow> (real \<times> nat) list \<Rightarrow> 'o \<times> net) \<Rightarrow> nat \<Rightarrow> nat \<Rightarrow> (real \<times> nat) list
     \<Rightarrow> nat list \<Rightarrow> 'o trainer \<Rightarrow> error + 'o trainer" where
  \<comment> \<open>One pass over the data loader; \<open>order\<close> is the order in which the sampler of this
      epoch visits the examples.\<close>
  "train_epoch upd k b dataset order st =
     train_batches upd k st (batches b (map (\<lambda>i. dataset ! i) order))"

fun train_epochs ::
  "('o \<Rightarrow> net \<Rightarrow> (real \<times> nat) list \<Rightarrow> 'o \<times> net) \<Rightarrow> nat \<Rightarrow> nat \<Rightarrow> (real \<times> nat) list
     \<Rightarrow> (int \<Rightarrow> nat list) \<Rightarrow> 'o trainer \<Rightarrow> int list \<Rightarrow> error + 'o trainer" where
  "train_epochs upd k b dataset sampler st [] = Inr st"
| "train_epochs upd k b dataset sampler st (e # es) =
     (case train_epoch upd k b dataset (sampler e) st of
        Inl err \<Rightarrow> Inl err
      | Inr st' \<Rightarrow> train_epochs upd k b dataset sampler st' es)"

definition train ::
  "('o \<Rightarrow> net \<Rightarrow> (real \<times> nat) list \<Rightarrow> 'o \<times> net) \<Rightarrow> nat \<Rightarrow> nat \<Rightarrow> int \<Rightarrow> (real \<times> nat) list
     \<Rightarrow> (int \<Rightarrow> nat list) \<Rightarrow> 'o trainer \<Rightarrow> error + 'o trainer" where
  \<comment> \<open>\<^verbatim>\<open>for i in range(n_epoch): for i_batch, xy in enumerate(dataloader): ...\<close>\<close>
  "train upd k b n_epoch dataset sampler st =
     train_epochs upd k b dataset sampler st (py_range n_epoch)"

definition notebook ::
  "int \<Rightarrow> int \<Rightarrow> int \<Rightarrow> int \<Rightarrow> rng \<Rightarrow> net \<Rightarrow> 'o
     \<Rightarrow> ('o \<Rightarrow> net \<Rightarrow> (real \<times> nat) list \<Rightarrow> 'o \<times> net) \<Rightarrow> (int \<Rightarrow> nat list)
     \<Rightarrow> error + simulation \<times> 'o trainer" where
  \<comment> \<open>The cells of the notebook in order, for a site count \<open>n\<close>, a trial count \<open>k\<close>, a batch
      size and an epoch count. The notebook checks none of them: every error is one the
      library raises, where it raises it.\<close>
  "notebook n k batch_size n_epoch g N0 o0 upd sampler =
     (case data_cells n k g of
        Inl e \<Rightarrow> Inl e
      | Inr (d, g') \<Rightarrow>
          (let dataset = zip (sim_x d) (sim_y d)
           in case data_loader batch_size dataset of
                Inl e \<Rightarrow> Inl e
              | Inr b \<Rightarrow>
                  (case train upd (nat k) b n_epoch dataset sampler
                          \<lparr>tr_net = N0, tr_opt = o0, running_loss = []\<rparr> of
                     Inl e \<Rightarrow> Inl e
                   | Inr st \<Rightarrow> Inr (d, st))))"

definition sampler_order :: "nat \<Rightarrow> nat list \<Rightarrow> bool" where
  \<comment> \<open>An order in which a sampler without replacement visits \<open>m\<close> examples: each index
      below \<open>m\<close>, once.\<close>
  "sampler_order m order \<longleftrightarrow> length order = m \<and> set order = {0..<m}"

section \<open>Concrete inputs\<close>

definition zero_net :: net where
  "zero_net = \<lparr>fc1_weight = replicate 64 [0], fc1_bias = replicate 64 0,
               fc2_weight = replicate 2 (replicate 64 0), fc2_bias = replicate 2 0\<rparr>"

definition half_rng :: rng where
  "half_rng = \<lparr>uniform_draws = (\<lambda>i. 1/2), normal_draws = (\<lambda>i. 0)\<rparr>"

definition no_update :: "unit \<Rightarrow> net \<Rightarrow> (real \<times> nat) list \<Rightarrow> unit \<times> net" where
  \<comment> \<open>An update that leaves the weights as they are.\<close>
  "no_update u N xy = (u, N)"

definition in_order :: "nat \<Rightarrow> int \<Rightarrow> nat list" where
  "in_order m e = [0..<m]"

section \<open>Broadcasting on the shapes of the training step\<close>

lemma stretch_same: "length xs = n \<Longrightarrow> stretch n xs = xs"
  by (cases xs) (auto simp: stretch_def)

lemma stretch_single: "stretch n [a] = replicate n a"
  by (simp add: stretch_def)

lemma map2_replicate_left: "length v = n \<Longrightarrow> map2 f (replicate n a) v = map (f a) v"
  by (induction v arbitrary: n) auto

lemma map2_replicate_right: "length xs = n \<Longrightarrow> map2 g xs (replicate n v) = map (\<lambda>a. g a v) xs"
  by (induction xs arbitrary: n) auto

lemma max_one_length:
  "xs \<noteq> [] \<Longrightarrow> max (length xs) (Suc 0) = length xs"
  "xs \<noteq> [] \<Longrightarrow> max (Suc 0) (length xs) = length xs"
  by (cases xs; simp)+

lemma length_unsqueeze1 [simp]: "length (unsqueeze1 xs) = length xs"
  by (simp add: unsqueeze1_def)

lemma ncols_unsqueeze1: "xs \<noteq> [] \<Longrightarrow> ncols (unsqueeze1 xs) = 1"
  by (cases xs) (simp_all add: ncols_def unsqueeze1_def)

lemma ncols_single: "ncols [v] = length v"
  by (simp add: ncols_def)

lemma map2_unsqueeze1: "map2 g (unsqueeze1 xs) (unsqueeze1 ys) = map2 (\<lambda>a b. g [a] [b]) xs ys"
  by (simp add: unsqueeze1_def zip_map_map split_def)
  
lemma broadcast_col_col:
  assumes "length xs = length ys"
  shows "broadcast f (unsqueeze1 xs) (unsqueeze1 ys) = unsqueeze1 (map2 f xs ys)"
proof (cases "xs = []")
  case True
  with assms show ?thesis by (simp add: broadcast_def unsqueeze1_def stretch_def)
next
  case False
  with assms have ys: "ys \<noteq> []" by auto
  have "broadcast f (unsqueeze1 xs) (unsqueeze1 ys)
      = map2 (\<lambda>a b. map2 f (stretch 1 a) (stretch 1 b)) (unsqueeze1 xs) (unsqueeze1 ys)"
    using assms False ys by (simp add: broadcast_def Let_def ncols_unsqueeze1 stretch_same)
  also have "\<dots> = map2 (\<lambda>a b. [f a b]) xs ys"
    by (simp add: map2_unsqueeze1 stretch_single)
  also have "\<dots> = unsqueeze1 (map2 f xs ys)"
    by (simp add: unsqueeze1_def split_def)
  finally show ?thesis .
qed

lemma broadcast_col_row:
  assumes "length v = length xs" and "xs \<noteq> []"
  shows "broadcast f (unsqueeze1 xs) (as_row v) = map (\<lambda>a. map (f a) v) xs"
proof -
  let ?n = "length xs"
  have n: "0 < ?n" using assms by simp
  have r: "max ?n (Suc 0) = ?n" "max (Suc 0) ?n = ?n"
    using assms(2) by (simp_all add: max_one_length)
  have row: "map2 f (stretch ?n [a]) (stretch ?n v) = map (f a) v" for a
    using assms by (simp add: stretch_single stretch_same map2_replicate_left)
  have "broadcast f (unsqueeze1 xs) (as_row v)
      = map2 (\<lambda>a b. map2 f (stretch ?n a) (stretch ?n b)) (unsqueeze1 xs) (replicate ?n v)"
    using assms by (simp add: broadcast_def Let_def as_row_def ncols_unsqueeze1 ncols_single
        stretch_same stretch_single r)
  also have "\<dots> = map (\<lambda>a. map2 f (stretch ?n a) (stretch ?n v)) (unsqueeze1 xs)"
    by (simp add: map2_replicate_right)
  also have "\<dots> = map (\<lambda>a. map (f a) v) xs"
    by (simp add: unsqueeze1_def comp_def row)
  finally show ?thesis .
qed

lemma map2_col_rows:
  assumes "\<forall>r\<in>set M. length r = n"
  shows "map2 (\<lambda>a b. map2 f (stretch n a) (stretch n b)) (unsqueeze1 xs) M
       = map2 (\<lambda>a r. map (f a) r) xs M"
  using assms
proof (induction xs arbitrary: M)
  case Nil
  then show ?case by (simp add: unsqueeze1_def)
next
  case (Cons x xs)
  show ?case
  proof (cases M)
    case Nil
    then show ?thesis by (simp add: unsqueeze1_def)
  next
    case (Cons r rs)
    with Cons.prems have len: "length r = n" and rest: "\<forall>r\<in>set rs. length r = n" by auto
    have "map2 f (stretch n [x]) (stretch n r) = map (f x) r"
      using len by (simp add: stretch_single stretch_same map2_replicate_left)
    moreover have "map2 (\<lambda>a b. map2 f (stretch n a) (stretch n b)) (unsqueeze1 xs) rs
       = map2 (\<lambda>a r. map (f a) r) xs rs"
      using Cons.IH [OF rest] .
    ultimately show ?thesis using Cons by (simp add: unsqueeze1_def)
  qed
qed

lemma broadcast_col_mat:
  assumes "length M = length xs" and "\<forall>r\<in>set M. length r = length xs" and "xs \<noteq> []"
  shows "broadcast f (unsqueeze1 xs) M = map2 (\<lambda>a r. map (f a) r) xs M"
proof -
  let ?n = "length xs"
  have n: "0 < ?n" using assms by simp
  have M: "M \<noteq> []" using assms by auto
  have nc: "ncols M = ?n" using assms M by (cases M) (auto simp: ncols_def)
  have c: "max (Suc 0) ?n = ?n" using assms(3) by (simp add: max_one_length)
  have "broadcast f (unsqueeze1 xs) M
      = map2 (\<lambda>a b. map2 f (stretch ?n a) (stretch ?n b)) (unsqueeze1 xs) M"
    using assms c by (simp add: broadcast_def Let_def ncols_unsqueeze1 nc stretch_same)
  also have "\<dots> = map2 (\<lambda>a r. map (f a) r) xs M"
    using assms(2) by (rule map2_col_rows)
  finally show ?thesis .
qed

section \<open>The elements of the log-likelihood tensor\<close>

lemma map2_same: "map2 f (map g xs) (map h xs) = map (\<lambda>a. f (g a) (h a)) xs"
  by (induction xs) simp_all

lemma map_unsqueeze1: "map (map f) (unsqueeze1 xs) = unsqueeze1 (map f xs)"
  by (simp add: unsqueeze1_def)

lemma log_prob_binomial_cols:
  "log_prob_binomial k (p_column S) (y_column S)
     = unsqueeze1 (map (\<lambda>t. binomial_log_prob k (fst (snd t)) (snd (snd t))) S)"
  by (simp add: log_prob_binomial_def p_column_def y_column_def unsqueeze1_def zip_map_map
      split_def zip_same_conv_map)

lemma lp_present_cols:
  "lp_present k (psi_column S) (p_column S) (y_column S) = unsqueeze1 (map (present_term k) S)"
proof -
  have "lp_present k (psi_column S) (p_column S) (y_column S)
      = broadcast (+) (unsqueeze1 (map (\<lambda>t. ln (fst t)) S))
          (unsqueeze1 (map (\<lambda>t. binomial_log_prob k (fst (snd t)) (snd (snd t))) S))"
    by (simp add: lp_present_def log_prob_binomial_cols)
       (simp add: psi_column_def map_unsqueeze1 comp_def)
  also have "\<dots> = unsqueeze1 (map2 (+) (map (\<lambda>t. ln (fst t)) S)
          (map (\<lambda>t. binomial_log_prob k (fst (snd t)) (snd (snd t))) S))"
    by (rule broadcast_col_col) simp
  also have "\<dots> = unsqueeze1 (map (present_term k) S)"
    unfolding map2_same by (simp add: present_term_def [abs_def] split_def)
  finally show ?thesis .
qed

lemma lp_maybe_absent_cols:
  "lp_maybe_absent k (psi_column S) (p_column S) (y_column S) = map (absent_term k) S"
proof -
  have "cat1 (unsqueeze1 (map (present_term k) S)) (map (map (\<lambda>s. ln (1 - s))) (psi_column S))
      = map (\<lambda>t. [present_term k t, ln (1 - fst t)]) S"
    by (simp add: cat1_def psi_column_def unsqueeze1_def zip_map_map split_def zip_same_conv_map)
  then show ?thesis
    by (simp add: lp_maybe_absent_def lp_present_cols logsumexp1_def absent_term_def split_def comp_def)
qed

lemma masks_cols:
  "definitely_present (y_column S) = unsqueeze1 (map (\<lambda>t. ind_pos (snd (snd t))) S)"
  "maybe_absent (y_column S) = unsqueeze1 (map (\<lambda>t. ind_zero (snd (snd t))) S)"
  by (simp_all add: definitely_present_def maybe_absent_def y_column_def unsqueeze1_def
      ind_pos_def ind_zero_def comp_def)

lemma log_prob_cols:
  assumes "S \<noteq> []"
  shows "log_prob k (psi_column S) (p_column S) (y_column S)
     = map (\<lambda>t. map (\<lambda>u. ind_pos (snd (snd t)) * present_term k t
                          + ind_zero (snd (snd t)) * absent_term k u) S) S"
proof -
  let ?d = "map (\<lambda>t. ind_pos (snd (snd t))) S"
  let ?m = "map (\<lambda>t. ind_zero (snd (snd t))) S"
  let ?a = "map (\<lambda>t. ind_pos (snd (snd t)) * present_term k t) S"
  let ?M = "map (\<lambda>t. map (\<lambda>u. ind_zero (snd (snd t)) * absent_term k u) S) S"
  have first: "broadcast (*) (unsqueeze1 ?d) (unsqueeze1 (map (present_term k) S)) = unsqueeze1 ?a"
    by (simp add: broadcast_col_col map2_same)
  have second: "broadcast (*) (unsqueeze1 ?m) (as_row (map (absent_term k) S)) = ?M"
    using assms by (simp add: broadcast_col_row comp_def)
  have "broadcast (+) (unsqueeze1 ?a) ?M = map2 (\<lambda>a r. map ((+) a) r) ?a ?M"
    using assms by (intro broadcast_col_mat) simp_all
  also have "\<dots> = map (\<lambda>t. map (\<lambda>u. ind_pos (snd (snd t)) * present_term k t
                          + ind_zero (snd (snd t)) * absent_term k u) S) S"
    by (simp add: map2_same)
  finally show ?thesis
    by (simp add: log_prob_def masks_cols lp_present_cols lp_maybe_absent_cols first second)
qed

lemma sum_row:
  "sum_list (map (\<lambda>u. c + d * h u) S) = real (length S) * c + d * sum_list (map h S)"
  by (induction S) (simp_all add: algebra_simps)

lemma sum_matrix:
  "sum_list (concat (map (\<lambda>t. map (\<lambda>u. f t + g t * h u) S) S))
     = real (length S) * sum_list (map f S) + sum_list (map g S) * sum_list (map h S)"
proof -
  have "sum_list (concat (map (\<lambda>t. map (\<lambda>u. f t + g t * h u) S) T))
     = real (length S) * sum_list (map f T) + sum_list (map g T) * sum_list (map h S)" for T
    by (induction T) (simp_all add: sum_row algebra_simps)
  then show ?thesis .
qed

lemma length_matrix:
  "length (concat (map (\<lambda>t. map (F t) S) T)) = length T * length S"
  by (induction T) simp_all

lemma loss_cols:
  assumes "S \<noteq> []"
  shows "loss k (psi_column S) (p_column S) (y_column S)
     = - ((real (length S) * (\<Sum>t\<leftarrow>S. ind_pos (snd (snd t)) * present_term k t)
          + (\<Sum>t\<leftarrow>S. ind_zero (snd (snd t))) * (\<Sum>u\<leftarrow>S. absent_term k u))
        / (real (length S) * real (length S)))"
  by (simp add: loss_def mean_def log_prob_cols [OF assms] sum_matrix length_matrix)

lemma site_log_prob_eq:
  "site_log_prob k s p y
     = ind_pos y * present_term k (s, p, y) + ind_zero y * absent_term k (s, p, y)"
proof -
  have "log_prob k (psi_column [(s, p, y)]) (p_column [(s, p, y)]) (y_column [(s, p, y)])
      = [[ind_pos y * present_term k (s, p, y) + ind_zero y * absent_term k (s, p, y)]]"
    by (subst log_prob_cols) simp_all
  then show ?thesis
    by (simp add: site_log_prob_def psi_column_def p_column_def y_column_def unsqueeze1_def)
qed

lemma logsumexp_pair: "logsumexp [a, b] = ln (exp a + exp b)"
proof -
  let ?m = "max b a"
  have pos: "0 < exp (a - ?m) + exp (b - ?m)" by (simp add: add_pos_pos)
  have "?m + ln (exp (a - ?m) + exp (b - ?m)) = ln (exp ?m * (exp (a - ?m) + exp (b - ?m)))"
    using pos by (simp add: ln_mult)
  also have "exp ?m * (exp (a - ?m) + exp (b - ?m)) = exp a + exp b"
    by (simp add: distrib_left exp_add [symmetric])
  finally show ?thesis by (simp add: logsumexp_def)
qed

lemma binomial_pmf_pos:
  assumes "0 < p" "p < 1" "y \<le> k"
  shows "0 < binomial_pmf k p y"
  using assms by (simp add: binomial_pmf_def)

lemma binomial_log_prob_eq:
  assumes "0 < p" "p < 1" "y \<le> k"
  shows "binomial_log_prob k p y = ln (binomial_pmf k p y)"
proof -
  have c: "real (k choose y) = fact k / (fact y * fact (k - y))"
    using assms(3) by (rule binomial_fact)
  have "ln (real (k choose y)) = log_factorial k - log_factorial y - log_factorial (k - y)"
    unfolding c log_factorial_def by (simp add: ln_div ln_mult)
  moreover have "ln (binomial_pmf k p y)
      = ln (real (k choose y)) + real y * ln p + real (k - y) * ln (1 - p)"
    using assms by (simp add: binomial_pmf_def ln_mult ln_realpow)
  ultimately show ?thesis by (simp add: binomial_log_prob_def)
qed

lemma present_term_exp:
  assumes "0 < s" "0 < p" "p < 1" "y \<le> k"
  shows "exp (present_term k (s, p, y)) = s * binomial_pmf k p y"
  using assms binomial_pmf_pos [of p y k]
  by (simp add: present_term_def binomial_log_prob_eq exp_add)

lemma absent_term_zero:
  assumes "0 < s" "s < 1" "0 < p" "p < 1"
  shows "absent_term k (s, p, 0) = ln (s * (1 - p) ^ k + (1 - s))"
  using assms
  by (simp add: absent_term_def logsumexp_pair present_term_exp) (simp add: binomial_pmf_def)

section \<open>The log-likelihood of one site\<close>






lemma site_prob:
  assumes "0 < s" "s < 1" "0 < p" "p < 1" "y \<le> k"
  shows "exp (site_log_prob k s p y)
     = s * binomial_pmf k p y + (if y = 0 then 1 - s else 0)"
proof (cases "y = 0")
  case True
  have "0 < s * (1 - p) ^ k + (1 - s)"
    using assms by (intro add_pos_pos mult_pos_pos zero_less_power) simp_all
  then show ?thesis
    using True assms
    by (simp add: site_log_prob_eq ind_pos_def ind_zero_def absent_term_zero binomial_pmf_def)
next
  case False
  then show ?thesis
    using assms by (simp add: site_log_prob_eq ind_pos_def ind_zero_def present_term_exp)
qed

lemma binomial_pmf_sum: "(\<Sum>y\<le>k. binomial_pmf k p y) = 1"
proof -
  have "(p + (1 - p)) ^ k = (\<Sum>y\<le>k. binomial_pmf k p y)"
    unfolding binomial_pmf_def by (rule binomial_ring)
  then show ?thesis by simp
qed

text \<open>
  Claim C4. For \<open>\<psi>\<close> and \<open>p\<close> strictly between 0 and 1, the probabilities that the evaluator
  gives to the counts \<open>0, \<dots>, k\<close> of one site add up to one.
\<close>

theorem total_probability:
  assumes "0 < s" and "s < 1" and "0 < p" and "p < 1"
  shows "(\<Sum>y\<le>k. exp (site_log_prob k s p y)) = 1"
proof -
  have "(\<Sum>y\<le>k. exp (site_log_prob k s p y))
      = (\<Sum>y\<le>k. s * binomial_pmf k p y + (if y = 0 then 1 - s else 0))"
    using assms by (intro sum.cong refl) (simp add: site_prob)
  also have "\<dots> = s * (\<Sum>y\<le>k. binomial_pmf k p y) + (\<Sum>y\<le>k. if y = 0 then 1 - s else 0)"
    by (simp add: sum.distrib sum_distrib_left)
  also have "(\<Sum>y\<le>k. if y = 0 then 1 - s else 0) = 1 - s"
    by simp
  finally show ?thesis by (simp add: binomial_pmf_sum)
qed

theorem total_probability_witness:
  "(0::real) < 1/2 \<and> (1/2::real) < 1 \<and> (\<Sum>y\<le>3. exp (site_log_prob 3 (1/2) (1/2) y)) = 1"
  using total_probability [of "1/2" "1/2" 3] by simp

section \<open>The loss of a minibatch\<close>

lemma loss_all_present:
  assumes "S \<noteq> []" and "\<forall>t\<in>set S. 0 < snd (snd t)"
  shows "loss k (psi_column S) (p_column S) (y_column S)
     = - ((\<Sum>t\<leftarrow>S. present_term k t) / real (length S))"
proof -
  have d: "map (\<lambda>t. ind_pos (snd (snd t)) * present_term k t) S = map (present_term k) S"
    using assms(2) by (intro map_cong refl) (simp add: ind_pos_def)
  have m: "map (\<lambda>t. ind_zero (snd (snd t))) S = map (\<lambda>t. 0) S"
    using assms(2) by (intro map_cong refl) (auto simp: ind_zero_def)
  have z: "sum_list (map (\<lambda>t. 0::real) S) = 0" by simp
  show ?thesis
    using assms(1) unfolding loss_cols [OF assms(1)] d m z by simp
qed

lemma loss_all_absent:
  assumes "S \<noteq> []" and "\<forall>t\<in>set S. snd (snd t) = 0"
  shows "loss k (psi_column S) (p_column S) (y_column S)
     = - ((\<Sum>t\<leftarrow>S. absent_term k t) / real (length S))"
proof -
  have d: "map (\<lambda>t. ind_pos (snd (snd t)) * present_term k t) S = map (\<lambda>t. 0) S"
    using assms(2) by (intro map_cong refl) (simp add: ind_pos_def)
  have m: "map (\<lambda>t. ind_zero (snd (snd t))) S = map (\<lambda>t. 1) S"
    using assms(2) by (intro map_cong refl) (auto simp: ind_zero_def)
  have z: "sum_list (map (\<lambda>t. 0::real) S) = 0" by simp
  have o: "sum_list (map (\<lambda>t. 1::real) S) = real (length S)"
    by (induction S) simp_all
  show ?thesis
    using assms(1) unfolding loss_cols [OF assms(1)] d m z o by simp
qed

lemma cols_two:
  "psi_column [(s1, p1, y1), (s2, p2, y2)] = [[s1], [s2]]"
  "p_column [(s1, p1, y1), (s2, p2, y2)] = [[p1], [p2]]"
  "y_column [(s1, p1, y1), (s2, p2, y2)] = [[y1], [y2]]"
  by (simp_all add: psi_column_def p_column_def y_column_def unsqueeze1_def)

text \<open>
  Claim C10. On a non-empty minibatch of sites within the data model, the loss of the training
  step is the negative mean over the sites of \<open>ln \<psi> + binomial_log_prob k p y\<close> when every
  count is positive, and the negative mean of the log-sum-exp branch when every count is 0.
\<close>

theorem homogeneous_batch_loss:
  assumes "S \<noteq> []" and "\<forall>t\<in>set S. in_data_model k t"
  shows "((\<forall>t\<in>set S. 0 < snd (snd t)) \<longrightarrow>
            loss k (psi_column S) (p_column S) (y_column S)
              = - ((\<Sum>(s, p, y)\<leftarrow>S. ln s + binomial_log_prob k p y) / real (length S)))
       \<and> ((\<forall>t\<in>set S. snd (snd t) = 0) \<longrightarrow>
            loss k (psi_column S) (p_column S) (y_column S)
              = - ((\<Sum>(s, p, y)\<leftarrow>S. logsumexp [ln s + binomial_log_prob k p 0, ln (1 - s)])
                    / real (length S)))"
proof (intro conjI impI)
  assume pos: "\<forall>t\<in>set S. 0 < snd (snd t)"
  have e: "map (present_term k) S = map (\<lambda>(s, p, y). ln s + binomial_log_prob k p y) S"
    by (intro map_cong refl) (simp add: present_term_def split_def)
  show "loss k (psi_column S) (p_column S) (y_column S)
              = - ((\<Sum>(s, p, y)\<leftarrow>S. ln s + binomial_log_prob k p y) / real (length S))"
    by (simp only: loss_all_present [OF assms(1) pos] e)
next
  assume zero: "\<forall>t\<in>set S. snd (snd t) = 0"
  have e: "map (absent_term k) S
      = map (\<lambda>(s, p, y). logsumexp [ln s + binomial_log_prob k p 0, ln (1 - s)]) S"
    using zero by (intro map_cong refl) (auto simp: absent_term_def present_term_def split_def)
  show "loss k (psi_column S) (p_column S) (y_column S)
              = - ((\<Sum>(s, p, y)\<leftarrow>S. logsumexp [ln s + binomial_log_prob k p 0, ln (1 - s)])
                    / real (length S))"
    by (simp only: loss_all_absent [OF assms(1) zero] e)
qed

theorem homogeneous_batch_loss_witness:
  "[(1/2, 1/2, 1), (1/2, 1/2, 2)] \<noteq> ([] :: site list)
   \<and> in_data_model 2 (1/2, 1/2, 1) \<and> in_data_model 2 (1/2, 1/2, 2)
   \<and> loss 2 [[1/2], [1/2]] [[1/2], [1/2]] [[1], [2]]
        = - (((ln (1/2) + binomial_log_prob 2 (1/2) 1) + (ln (1/2) + binomial_log_prob 2 (1/2) 2)) / 2)
   \<and> in_data_model 2 (1/2, 1/3, 0) \<and> in_data_model 2 (1/4, 1/2, 0)
   \<and> loss 2 [[1/2], [1/4]] [[1/3], [1/2]] [[0], [0]]
        = - ((logsumexp [ln (1/2) + binomial_log_prob 2 (1/3) 0, ln (1 - 1/2)]
              + logsumexp [ln (1/4) + binomial_log_prob 2 (1/2) 0, ln (1 - 1/4)]) / 2)"
  using homogeneous_batch_loss [of "[(1/2, 1/2, 1), (1/2, 1/2, 2)]" 2]
    homogeneous_batch_loss [of "[(1/2, 1/3, 0), (1/4, 1/2, 0)]" 2]
  by (simp add: cols_two in_data_model_def)

text \<open>
  Claim C1, at a minibatch that mixes the two outcomes. For \<open>k = 2\<close> and two sites with
  \<open>\<psi> = p = 1/2\<close>, one with the count 1 and one with the count 0, the loss of the training step
  is \<open>- (2 * ln (1/4) + ln (3/4) + ln (5/8)) / 4\<close>: the mean runs over the four elements of a
  tensor of shape \<open>(2, 2)\<close>, and \<open>ln (3/4)\<close> is the marginalised term of the site whose count is
  positive. The negative mean of the two per-site log-likelihoods is
  \<open>- (ln (1/4) + ln (5/8)) / 2\<close>, a different number.
\<close>

theorem mixed_batch_loss:
  "loss 2 [[1/2], [1/2]] [[1/2], [1/2]] [[1], [0]]
     = - ((2 * ln (1/4) + ln (3/4) + ln (5/8)) / 4)
   \<and> - ((site_log_prob 2 (1/2) (1/2) 1 + site_log_prob 2 (1/2) (1/2) 0) / 2)
     = - ((ln (1/4) + ln (5/8)) / 2)
   \<and> loss 2 [[1/2], [1/2]] [[1/2], [1/2]] [[1], [0]]
     \<noteq> - ((site_log_prob 2 (1/2) (1/2) 1 + site_log_prob 2 (1/2) (1/2) 0) / 2)"
proof -
  have pmf1: "binomial_pmf 2 (1/2) 1 = 1/2" and pmf0: "binomial_pmf 2 (1/2) 0 = 1/4"
    by (simp_all add: binomial_pmf_def power2_eq_square)
  have l1: "ln (1/2 :: real) + ln (1/2) = ln (1/4)" and l0: "ln (1/2 :: real) + ln (1/4) = ln (1/8)"
    using ln_mult [of "1/2 :: real" "1/2"] ln_mult [of "1/2 :: real" "1/4"] by simp_all
  have "present_term 2 (1/2, 1/2, 1) = ln (1/2) + ln (binomial_pmf 2 (1/2) 1)"
    by (simp add: present_term_def binomial_log_prob_eq del: One_nat_def)
  then have pA: "present_term 2 (1/2, 1/2, 1) = ln (1/4)"
    by (simp only: pmf1 l1)
  have "present_term 2 (1/2, 1/2, 0) = ln (1/2) + ln (binomial_pmf 2 (1/2) 0)"
    by (simp add: present_term_def binomial_log_prob_eq)
  then have pB: "present_term 2 (1/2, 1/2, 0) = ln (1/8)"
    by (simp only: pmf0 l0)
  have pA': "present_term 2 (1/2, 1/2, Suc 0) = ln (1/4)"
    using pA by simp
  have aA: "absent_term 2 (1/2, 1/2, Suc 0) = ln (3/4)"
    by (simp add: absent_term_def logsumexp_pair pA')
  have aB: "absent_term 2 (1/2, 1/2, 0) = ln (5/8)"
    by (simp add: absent_term_def logsumexp_pair pB)
  have code: "loss 2 [[1/2], [1/2]] [[1/2], [1/2]] [[1], [0]]
     = - ((2 * ln (1/4) + ln (3/4) + ln (5/8)) / 4)"
    using loss_cols [of "[(1/2, 1/2, 1), (1/2, 1/2, 0)]" 2]
    by (simp add: cols_two ind_pos_def ind_zero_def pA' aA aB)
  have sites: "- ((site_log_prob 2 (1/2) (1/2) 1 + site_log_prob 2 (1/2) (1/2) 0) / 2)
     = - ((ln (1/4) + ln (5/8)) / 2)"
    by (simp add: site_log_prob_eq ind_pos_def ind_zero_def pA' aB)
  have "ln (3/4 :: real) \<noteq> ln (5/8)"
    by simp
  then have ne: "- ((2 * ln (1/4) + ln (3/4) + ln (5/8)) / 4)
      \<noteq> - ((ln (1/4 :: real) + ln (5/8)) / 2)"
    by (simp add: field_simps)
  show ?thesis unfolding code sites using ne by blast
qed

section \<open>The logarithms of the evaluator\<close>

lemma eps32_range: "0 < eps32" "eps32 < 1 - eps32"
  by (simp_all add: eps32_def)

lemma clamp_probs_range: "eps32 \<le> clamp_probs q \<and> clamp_probs q \<le> 1 - eps32"
  using eps32_range by (simp add: clamp_probs_def min_def max_def)

lemma clamp_probs_id: "eps32 \<le> q \<Longrightarrow> q \<le> 1 - eps32 \<Longrightarrow> clamp_probs q = q"
  by (simp add: clamp_probs_def min_def max_def)

lemma torch_log_clamped:
  "torch_log (clamp_probs q) = Some (ln (clamp_probs q))"
  "torch_log (1 - clamp_probs q) = Some (ln (1 - clamp_probs q))"
  using clamp_probs_range [of q] eps32_range by (simp_all add: torch_log_def)

text \<open>
  Claim C5, refuted: the evaluator takes the logarithm of \<open>\<psi>\<close> and of \<open>1 - \<psi>\<close> as they
  come. At \<open>\<psi> = 0\<close> the first, at \<open>\<psi> = 1\<close> the second is a logarithm of zero.
\<close>

theorem log_of_zero_reached:
  "log_psi [[0]] = [[None]] \<and> log_not_psi [[1]] = [[None]]"
  by (simp add: log_psi_def log_not_psi_def torch_log_def)

text \<open>
  Claim C5, amended. \<open>p\<close> is clamped before its logarithms are taken: the library's
  \<open>Binomial\<close> moves it into \<open>[eps, 1 - eps]\<close> with \<open>eps = 1 / 2 ^ 23\<close>, strictly inside \<open>(0, 1)\<close>, so
  the logarithms of \<open>p\<close> and \<open>1 - p\<close> are finite for every \<open>p\<close>, also 0 and 1, and a \<open>p\<close>
  between the bounds is left as it is. \<open>\<psi>\<close> and \<open>1 - \<psi>\<close> are not clamped: the logarithms
  \<open>torch.log(psi_i)\<close> and \<open>torch.log(1 - psi_i)\<close> are all finite exactly when every \<open>\<psi>\<close> is
  strictly between 0 and 1, and then they are the numbers \<open>ln \<psi>\<close> and \<open>ln (1 - \<psi>)\<close> that the
  likelihood uses.
\<close>

theorem log_arguments:
  "((\<forall>r\<in>set psi_i. \<forall>s\<in>set r. 0 < s \<and> s < 1)
      \<longleftrightarrow> None \<notin> set (concat (log_psi psi_i)) \<and> None \<notin> set (concat (log_not_psi psi_i)))
   \<and> ((\<forall>r\<in>set psi_i. \<forall>s\<in>set r. 0 < s \<and> s < 1) \<longrightarrow>
        log_psi psi_i = map (map Some) (map (map ln) psi_i)
      \<and> log_not_psi psi_i = map (map Some) (map (map (\<lambda>s. ln (1 - s))) psi_i))
   \<and> None \<notin> set (concat (log_p p_i)) \<and> None \<notin> set (concat (log_not_p p_i))
   \<and> 0 < eps32 \<and> eps32 \<le> clamp_probs q \<and> clamp_probs q \<le> 1 - eps32 \<and> 1 - eps32 < 1
   \<and> (eps32 \<le> q \<and> q \<le> 1 - eps32 \<longrightarrow> clamp_probs q = q)"
proof -
  have a: "(\<forall>r\<in>set psi_i. \<forall>s\<in>set r. 0 < s \<and> s < 1)
      \<longleftrightarrow> None \<notin> set (concat (log_psi psi_i)) \<and> None \<notin> set (concat (log_not_psi psi_i))"
    by (auto simp: log_psi_def log_not_psi_def torch_log_def)
  have b: "(\<forall>r\<in>set psi_i. \<forall>s\<in>set r. 0 < s \<and> s < 1) \<longrightarrow>
        log_psi psi_i = map (map Some) (map (map ln) psi_i)
      \<and> log_not_psi psi_i = map (map Some) (map (map (\<lambda>s. ln (1 - s))) psi_i)"
    by (auto simp: log_psi_def log_not_psi_def torch_log_def)
  have c: "None \<notin> set (concat (log_p p_i))" "None \<notin> set (concat (log_not_p p_i))"
    by (auto simp: log_p_def log_not_p_def torch_log_clamped)
  have d: "0 < eps32 \<and> eps32 \<le> clamp_probs q \<and> clamp_probs q \<le> 1 - eps32 \<and> 1 - eps32 < 1"
    using clamp_probs_range [of q] eps32_range by simp
  have e: "eps32 \<le> q \<and> q \<le> 1 - eps32 \<longrightarrow> clamp_probs q = q"
    by (simp add: clamp_probs_id)
  from a b c d e show ?thesis by blast
qed

theorem log_arguments_witness:
  "None \<notin> set (concat (log_psi [[1/2]])) \<and> None \<notin> set (concat (log_not_psi [[1/2]]))
   \<and> log_psi [[1/2]] = [[Some (ln (1/2))]] \<and> log_not_psi [[1/2]] = [[Some (ln (1 - 1/2))]]
   \<and> None \<notin> set (concat (log_p [[0], [1]])) \<and> None \<notin> set (concat (log_not_p [[0], [1]]))
   \<and> log_p [[0], [1]] = [[Some (ln eps32)], [Some (ln (1 - eps32))]]
   \<and> eps32 \<le> 1/2 \<and> (1/2 :: real) \<le> 1 - eps32 \<and> clamp_probs (1/2) = 1/2"
proof -
  have c0: "clamp_probs 0 = eps32" and c1: "clamp_probs 1 = 1 - eps32"
    using eps32_range by (simp_all add: clamp_probs_def min_def max_def)
  have lp: "log_p [[0], [1]] = [[Some (ln eps32)], [Some (ln (1 - eps32))]]"
    using torch_log_clamped(1) [of 0] torch_log_clamped(1) [of 1]
    by (simp add: log_p_def c0 c1)
  have h: "eps32 \<le> 1/2" "(1/2 :: real) \<le> 1 - eps32"
    by (simp_all add: eps32_def)
  from log_arguments [of "[[1/2]]" "[[0], [1]]" "1/2"] lp h show ?thesis by simp
qed

section \<open>The counts of the data generator\<close>

lemma unit_draws_rand: "unit_draws g \<Longrightarrow> unit_draws (snd (rand m g))"
  by (simp add: unit_draws_def rand_def)

lemma unit_draws_randn: "unit_draws g \<Longrightarrow> unit_draws (snd (randn g))"
  by (simp add: unit_draws_def randn_def)

lemma rand_draws: "unit_draws g \<Longrightarrow> \<forall>r\<in>set (fst (rand m g)). 0 \<le> r \<and> r < 1"
  by (auto simp: unit_draws_def rand_def)

lemma length_rand [simp]: "length (fst (rand m g)) = m"
  by (simp add: rand_def)

lemma unit_draws_uniform_sample:
  "unit_draws g \<Longrightarrow> unit_draws (snd (uniform_sample low high g))"
  by (simp add: uniform_sample_def split_def Let_def unit_draws_rand)

lemma length_uniform_sample:
  "length high = length low \<Longrightarrow> length (fst (uniform_sample low high g)) = length low"
  by (simp add: uniform_sample_def split_def Let_def)

lemma unit_draws_bernoulli_sample:
  "unit_draws g \<Longrightarrow> unit_draws (snd (bernoulli_sample probs g))"
  by (simp add: bernoulli_sample_def split_def Let_def unit_draws_rand)

lemma length_bernoulli_sample [simp]:
  "length (fst (bernoulli_sample probs g)) = length probs"
  by (simp add: bernoulli_sample_def split_def Let_def)

lemma bernoulli_sample_values:
  "i < length probs \<Longrightarrow>
     fst (bernoulli_sample probs g) ! i = 0 \<or> fst (bernoulli_sample probs g) ! i = 1"
  by (simp add: bernoulli_sample_def split_def Let_def)

lemma length_binomial_sample [simp]:
  "length (fst (binomial_sample k qs g)) = length qs"
  by (induction qs arbitrary: g) (simp_all add: split_def Let_def)

lemma binomial_sample_le:
  "i < length qs \<Longrightarrow> fst (binomial_sample k qs g) ! i \<le> k"
proof (induction qs arbitrary: g i)
  case Nil
  then show ?case by simp
next
  case (Cons q qs)
  have "length (filter (\<lambda>r. r < q) (fst (rand k g))) \<le> k"
    using length_filter_le [of "\<lambda>r. r < q" "fst (rand k g)"] by simp
  then show ?case
    using Cons by (cases i) (simp_all add: split_def Let_def)
qed

lemma binomial_sample_zero:
  "unit_draws g \<Longrightarrow> i < length qs \<Longrightarrow> qs ! i \<le> 0 \<Longrightarrow> fst (binomial_sample k qs g) ! i = 0"
proof (induction qs arbitrary: g i)
  case Nil
  then show ?case by simp
next
  case (Cons q qs)
  show ?case
  proof (cases i)
    case 0
    with Cons.prems have q: "q \<le> 0" by simp
    have "\<forall>r\<in>set (fst (rand k g)). \<not> r < q"
      using rand_draws [OF Cons.prems(1), of k] q by fastforce
    then have "filter (\<lambda>r. r < q) (fst (rand k g)) = []"
      by (simp add: filter_empty_conv)
    with 0 show ?thesis by (simp add: split_def Let_def)
  next
    case (Suc j)
    with Cons.prems have "j < length qs" "qs ! j \<le> 0" by simp_all
    with Cons.IH [OF unit_draws_rand [OF Cons.prems(1)]] Suc show ?thesis
      by (simp add: split_def Let_def)
  qed
qed

lemma generate_y:
  "sim_y (fst (generate n k g)) =
     fst (binomial_sample k
       (map2 (*) (sim_p (fst (generate n k g))) (sim_z (fst (generate n k g))))
       (snd (bernoulli_sample (sim_psi (fst (generate n k g)))
          (snd (randn (snd (randn (snd (randn (snd (randn (snd (randn (snd (randn
             (snd (uniform_sample (replicate n (- 1)) (replicate n 1) g)))))))))))))))))"
  by (simp add: generate_def split_def Let_def)

lemma generate_lengths:
  "length (sim_x (fst (generate n k g))) = n"
  "length (sim_p (fst (generate n k g))) = n"
  "length (sim_psi (fst (generate n k g))) = n"
  "length (sim_z (fst (generate n k g))) = n"
  "length (sim_y (fst (generate n k g))) = n"
  by (simp_all add: generate_def split_def Let_def length_uniform_sample)
text \<open>
  Claim C7. With uniform draws from \<open>[0, 1)\<close>, every site \<open>i\<close> of the generated data has a
  count \<open>y \<le> k\<close> (a count is a natural number, so \<open>0 \<le> y\<close>), a state \<open>z\<close> of 0 or 1, and
  the count 0 whenever \<open>z = 0\<close>: no draw is below the success probability \<open>p * z = 0\<close>.
\<close>

theorem generated_counts:
  assumes "unit_draws g" and "i < n"
  shows "length (sim_y (fst (generate n k g))) = n
       \<and> length (sim_z (fst (generate n k g))) = n
       \<and> sim_y (fst (generate n k g)) ! i \<le> k
       \<and> (sim_z (fst (generate n k g)) ! i = 0 \<or> sim_z (fst (generate n k g)) ! i = 1)
       \<and> (sim_z (fst (generate n k g)) ! i = 0 \<longrightarrow> sim_y (fst (generate n k g)) ! i = 0)"
proof -
  let ?d = "fst (generate n k g)"
  let ?g8 = "snd (bernoulli_sample (sim_psi ?d)
          (snd (randn (snd (randn (snd (randn (snd (randn (snd (randn (snd (randn
             (snd (uniform_sample (replicate n (- 1)) (replicate n 1) g)))))))))))))))"
  let ?q = "map2 (*) (sim_p ?d) (sim_z ?d)"
  have u: "unit_draws ?g8"
    by (intro unit_draws_bernoulli_sample unit_draws_randn unit_draws_uniform_sample assms(1))
  have lq: "length ?q = n" by (simp add: generate_lengths)
  have y: "sim_y ?d = fst (binomial_sample k ?q ?g8)" by (rule generate_y)
  have le: "sim_y ?d ! i \<le> k"
    unfolding y using assms(2) lq by (intro binomial_sample_le) simp
  have z01: "sim_z ?d ! i = 0 \<or> sim_z ?d ! i = 1"
    using assms(2) bernoulli_sample_values [of i "sim_psi ?d"]
    by (simp add: generate_def split_def Let_def length_uniform_sample)
  have zero: "sim_y ?d ! i = 0" if "sim_z ?d ! i = 0"
  proof -
    have "?q ! i = 0" using that assms(2) by (simp add: generate_lengths)
    then have q0: "?q ! i \<le> 0" by simp
    have iq: "i < length ?q" using assms(2) lq by simp
    show ?thesis
      unfolding y using u iq q0 by (rule binomial_sample_zero)
  qed
  show ?thesis using le z01 zero by (simp add: generate_lengths)
qed

theorem generated_counts_witness:
  "unit_draws half_rng \<and> (0::nat) < 1
   \<and> length (sim_y (fst (generate 1 2 half_rng))) = 1
   \<and> sim_y (fst (generate 1 2 half_rng)) ! 0 \<le> 2
   \<and> sim_z (fst (generate 1 2 half_rng)) ! 0 = 0
   \<and> sim_y (fst (generate 1 2 half_rng)) ! 0 = 0"
proof -
  have u: "unit_draws half_rng" by (simp add: unit_draws_def half_rng_def)
  have z: "sim_z (fst (generate 1 2 half_rng)) ! 0 = 0"
    by (simp add: generate_def uniform_sample_def bernoulli_sample_def rand_def randn_def
        split_def Let_def half_rng_def sigmoid_def)
  from generated_counts [OF u, of 0 1 2] z u show ?thesis by simp
qed

section \<open>The configuration of a run\<close>

lemma length_covariates:
  "length (sort (fst (uniform_sample (replicate m (- 1)) (replicate m 1) g))) = m"
  by (simp add: length_uniform_sample)

lemma covariates_neg: "n < 0 \<Longrightarrow> covariates n g = Inl NegativeDimension"
  by (simp add: covariates_def)

lemma covariates_ok:
  "0 \<le> n \<Longrightarrow> covariates n g
     = Inr (sort (fst (uniform_sample (replicate (nat n) (- 1)) (replicate (nat n) 1) g)),
            snd (uniform_sample (replicate (nat n) (- 1)) (replicate (nat n) 1) g))"
  by (simp add: covariates_def split_def Let_def)

lemma data_cells_neg: "n < 0 \<Longrightarrow> data_cells n k g = Inl NegativeDimension"
  by (simp add: data_cells_def covariates_neg)

lemma sorted_sample_empty:
  "sort (fst (uniform_sample (replicate m (- 1)) (replicate m 1) g)) = [] \<longleftrightarrow> m = 0"
  using length_covariates [of m g] by (metis length_0_conv)

lemma data_cells_neg_count:
  assumes "0 < n" and "k < 0"
  shows "data_cells n k g = Inl NegativeCount"
proof -
  have "sort (fst (uniform_sample (replicate (nat n) (- 1)) (replicate (nat n) 1) g)) \<noteq> []"
    using assms(1) by (simp add: sorted_sample_empty)
  then show ?thesis
    using assms by (simp add: data_cells_def covariates_ok observations_def split_def Let_def)
qed

lemma data_cells_generate:
  assumes "0 \<le> n" and "0 \<le> k \<or> n = 0"
  shows "data_cells n k g = Inr (generate (nat n) (nat k) g)"
proof -
  have "\<not> (sort (fst (uniform_sample (replicate (nat n) (- 1)) (replicate (nat n) 1) g)) \<noteq> []
            \<and> k < 0)"
    using assms(2) by (auto simp: sorted_sample_empty)
  then show ?thesis
    using assms(1)
    by (simp only: data_cells_def covariates_ok observations_def generate_def split_def Let_def
        if_False sum.case prod.case fst_conv snd_conv)
qed

lemma generate_y_le: "y \<in> set (sim_y (fst (generate n k g))) \<Longrightarrow> y \<le> k"
proof -
  assume "y \<in> set (sim_y (fst (generate n k g)))"
  then obtain i where i: "i < length (sim_y (fst (generate n k g)))"
    and y: "y = sim_y (fst (generate n k g)) ! i"
    by (auto simp: in_set_conv_nth)
  have "i < length (map2 (*) (sim_p (fst (generate n k g))) (sim_z (fst (generate n k g))))"
    using i by (simp add: generate_lengths)
  then show "y \<le> k"
    unfolding y by (subst generate_y) (rule binomial_sample_le)
qed

lemma dataset_y_le:
  "xy \<in> set (zip (sim_x (fst (generate n k g))) (sim_y (fst (generate n k g)))) \<Longrightarrow> snd xy \<le> k"
  by (cases xy) (auto dest: set_zip_rightD generate_y_le)

lemma length_dataset:
  "length (zip (sim_x (fst (generate n k g))) (sim_y (fst (generate n k g)))) = n"
  by (simp add: generate_lengths)

lemma dataset_empty:
  "zip (sim_x (fst (generate n k g))) (sim_y (fst (generate n k g))) = [] \<longleftrightarrow> n = 0"
  using length_dataset [of n k g] by (metis length_0_conv)

lemma train_step_trace:
  "train_step upd k st xy = Inr st' \<Longrightarrow> length (running_loss st') = Suc (length (running_loss st))"
  by (auto simp: train_step_def split_def Let_def split: if_splits)

lemma train_batches_trace:
  "train_batches upd k st bs = Inr st' \<Longrightarrow>
     length (running_loss st') = length (running_loss st) + length bs"
proof (induction bs arbitrary: st)
  case Nil
  then show ?case by simp
next
  case (Cons xy bs)
  then obtain s where s: "train_step upd k st xy = Inr s" and r: "train_batches upd k s bs = Inr st'"
    by (auto split: sum.splits)
  from Cons.IH [OF r] train_step_trace [OF s] show ?case by simp
qed

lemma length_batches: "length (batches b xs) = (length xs + b - 1) div b"
  by (simp add: batches_def)

lemma train_epoch_trace:
  "train_epoch upd k b dataset order st = Inr st' \<Longrightarrow>
     length (running_loss st') = length (running_loss st) + (length order + b - 1) div b"
  by (auto simp: train_epoch_def length_batches dest: train_batches_trace)

lemma train_epochs_trace:
  assumes "\<forall>e. length (sampler e) = m"
  shows "train_epochs upd k b dataset sampler st es = Inr st' \<Longrightarrow>
     length (running_loss st') = length (running_loss st) + length es * ((m + b - 1) div b)"
proof (induction es arbitrary: st)
  case Nil
  then show ?case by simp
next
  case (Cons e es)
  then obtain s where s: "train_epoch upd k b dataset (sampler e) st = Inr s"
    and r: "train_epochs upd k b dataset sampler s es = Inr st'"
    by (auto split: sum.splits)
  from Cons.IH [OF r] train_epoch_trace [OF s] assms show ?case by simp
qed

lemma train_trace:
  assumes "\<forall>e. length (sampler e) = m"
    and "train upd k b n_epoch dataset sampler st = Inr st'"
  shows "length (running_loss st') = length (running_loss st) + nat n_epoch * ((m + b - 1) div b)"
  using train_epochs_trace [OF assms(1), of upd k b dataset st "py_range n_epoch" st'] assms(2)
  by (simp add: train_def py_range_def)

lemma train_no_epochs: "n_epoch \<le> 0 \<Longrightarrow> train upd k b n_epoch dataset sampler st = Inr st"
  by (simp add: train_def py_range_def)

lemma one_batch:
  fixes l b :: nat
  assumes "0 < l" and "l \<le> b"
  shows "(l + b - 1) div b = 1"
proof -
  have "b * 1 \<le> l + b - 1" and "l + b - 1 < b * Suc 1"
    using assms by simp_all
  then show ?thesis by (rule div_nat_eqI)
qed

lemma batches_single:
  assumes "xs \<noteq> []" and "length xs \<le> b"
  shows "batches b xs = [xs]"
proof -
  have "0 < length xs" using assms(1) by simp
  then have "(length xs + b - 1) div b = 1"
    using assms(2) by (rule one_batch)
  then show ?thesis using assms(2) by (simp add: batches_def)
qed

lemma set_batches: "xy \<in> set (batches b xs) \<Longrightarrow> set xy \<subseteq> set xs"
  by (auto simp: batches_def dest!: in_set_takeD in_set_dropD)

lemma inner_zero: "sum_list (map2 (*) h (replicate m (0::real))) = 0"
proof (induction h arbitrary: m)
  case Nil
  then show ?case by simp
next
  case (Cons a h)
  then show ?case by (cases m) simp_all
qed

lemma forward_zero_net:
  "forward zero_net x_i = (map (\<lambda>a. [1/2]) x_i, map (\<lambda>a. [1/2]) x_i)"
proof -
  have "map sigmoid (linear (replicate 2 (replicate 64 0)) (replicate 2 0) h) = [1/2, 1/2]" for h
    by (simp add: linear_def numeral_2_eq_2 inner_zero sigmoid_def)
  then show ?thesis
    by (simp add: forward_def hidden_def Let_def zero_net_def comp_def)
qed

lemma train_step_zero_net:
  assumes "tr_net st = zero_net" and "\<forall>xy\<in>set b. snd xy \<le> k"
  shows "\<exists>st'. train_step no_update k st b = Inr st' \<and> tr_net st' = zero_net"
proof -
  have p: "\<not> (\<exists>r\<in>set (map (\<lambda>a. [1/2 :: real]) (unsqueeze1 (map fst b))). \<exists>q\<in>set r. q < 0 \<or> 1 < q)"
    by auto
  have y: "\<not> (\<exists>r\<in>set (unsqueeze1 (map snd b)). \<exists>y\<in>set r. k < y)"
    using assms(2) by (auto simp: unsqueeze1_def)
  show ?thesis
    using p y assms(1)
    by (simp add: train_step_def forward_zero_net no_update_def Let_def del: set_map)
qed

lemma train_batches_zero_net:
  assumes "tr_net st = zero_net" and "\<forall>b\<in>set bs. \<forall>xy\<in>set b. snd xy \<le> k"
  shows "\<exists>st'. train_batches no_update k st bs = Inr st' \<and> tr_net st' = zero_net"
  using assms
proof (induction bs arbitrary: st)
  case Nil
  then show ?case by simp
next
  case (Cons b bs)
  then obtain s where s: "train_step no_update k st b = Inr s" and z: "tr_net s = zero_net"
    using train_step_zero_net [of st b k] by auto
  from Cons.IH [OF z] Cons.prems(2) s show ?case by simp
qed

lemma train_epoch_zero_net:
  assumes "tr_net st = zero_net" and "\<forall>xy\<in>set dataset. snd xy \<le> k"
    and "set order \<subseteq> {0..<length dataset}"
  shows "\<exists>st'. train_epoch no_update k b dataset order st = Inr st' \<and> tr_net st' = zero_net"
proof -
  have "set (map (\<lambda>i. dataset ! i) order) \<subseteq> set dataset"
    using assms(3) by auto
  then have "\<forall>c\<in>set (batches b (map (\<lambda>i. dataset ! i) order)). \<forall>xy\<in>set c. snd xy \<le> k"
    using assms(2) set_batches by blast
  then show ?thesis
    unfolding train_epoch_def using assms(1) by (intro train_batches_zero_net)
qed

lemma train_epochs_zero_net:
  assumes "\<forall>xy\<in>set dataset. snd xy \<le> k" and "\<forall>e. set (sampler e) \<subseteq> {0..<length dataset}"
  shows "tr_net st = zero_net \<Longrightarrow>
     \<exists>st'. train_epochs no_update k b dataset sampler st es = Inr st' \<and> tr_net st' = zero_net"
proof (induction es arbitrary: st)
  case Nil
  then show ?case by simp
next
  case (Cons e es)
  obtain s where s: "train_epoch no_update k b dataset (sampler e) st = Inr s"
    and z: "tr_net s = zero_net"
    using train_epoch_zero_net [OF Cons.prems assms(1), of "sampler e" b] assms(2) by auto
  from Cons.IH [OF z] s show ?case by simp
qed

lemma notebook_stages:
  assumes "0 < n" and "0 \<le> k" and "0 < batch_size"
  shows "notebook n k batch_size n_epoch g N0 o0 upd sampler
     = (case train upd (nat k) (nat batch_size) n_epoch
               (zip (sim_x (fst (generate (nat n) (nat k) g)))
                    (sim_y (fst (generate (nat n) (nat k) g))))
               sampler \<lparr>tr_net = N0, tr_opt = o0, running_loss = []\<rparr> of
          Inl e \<Rightarrow> Inl e
        | Inr st \<Rightarrow> Inr (fst (generate (nat n) (nat k) g), st))"
proof -
  have d: "data_cells n k g = Inr (generate (nat n) (nat k) g)"
    using assms by (simp add: data_cells_generate)
  have ne: "zip (sim_x (fst (generate (nat n) (nat k) g)))
                (sim_y (fst (generate (nat n) (nat k) g))) \<noteq> []"
    using assms(1) dataset_empty [of "nat n" "nat k" g] by (simp del: zip_eq_Nil_iff)
  show ?thesis
    using assms(3) ne
    by (simp add: notebook_def d data_loader_def split_def Let_def del: zip_eq_Nil_iff)
qed

lemma notebook_empty:
  "notebook 0 k batch_size n_epoch g N0 o0 upd sampler = Inl EmptyDataset"
proof -
  have d: "data_cells 0 k g = Inr (generate (nat 0) (nat k) g)"
    by (rule data_cells_generate) simp_all
  show ?thesis
    using dataset_empty [of 0 "nat k" g]
    by (simp add: notebook_def d data_loader_def split_def Let_def del: zip_eq_Nil_iff)
qed

lemma notebook_zero_net:
  assumes "0 < n" and "0 \<le> k" and "0 < batch_size"
  shows "\<exists>st. notebook n k batch_size n_epoch g zero_net () no_update (in_order (nat n))
            = Inr (fst (generate (nat n) (nat k) g), st)
          \<and> length (running_loss st)
            = nat n_epoch * ((nat n + nat batch_size - 1) div nat batch_size)"
proof -
  let ?d = "fst (generate (nat n) (nat k) g)"
  let ?ds = "zip (sim_x ?d) (sim_y ?d)"
  let ?init = "\<lparr>tr_net = zero_net, tr_opt = (), running_loss = []\<rparr>"
  have y: "\<forall>xy\<in>set ?ds. snd xy \<le> nat k"
    using dataset_y_le by blast
  have o: "\<forall>e. set (in_order (nat n) e) \<subseteq> {0..<length ?ds}"
    using length_dataset [of "nat n" "nat k" g] by (simp add: in_order_def del: length_zip)
  obtain st where st: "train no_update (nat k) (nat batch_size) n_epoch ?ds (in_order (nat n)) ?init
      = Inr st"
    using train_epochs_zero_net [OF y o, of ?init "nat batch_size" "py_range n_epoch"]
    by (auto simp: train_def)
  have l: "\<forall>e. length (in_order (nat n) e) = nat n"
    by (simp add: in_order_def)
  from train_trace [OF l st] have "length (running_loss st)
      = nat n_epoch * ((nat n + nat batch_size - 1) div nat batch_size)"
    by simp
  then show ?thesis
    using st by (simp add: notebook_stages [OF assms])
qed

text \<open>
  Claim C6, refuted. With 2 sites and a batch size of 32 the notebook generates the data and
  records one loss; with an epoch count of \<open>-1\<close> it generates the data and records no loss;
  with \<open>k = 0\<close> trials it records the losses of its two minibatches: none of the three runs
  ends in an error. With \<open>n = 0\<close> the run ends in an error only after both data cells have
  run, and with \<open>k = -1\<close> only after the first data cell has drawn the covariates.
\<close>

theorem unchecked_configuration:
  "\<not> isl (notebook 2 1 32 1 half_rng zero_net () no_update (in_order 2))
   \<and> length (sim_y (fst (projr (notebook 2 1 32 1 half_rng zero_net () no_update (in_order 2))))) = 2
   \<and> length (running_loss (snd (projr (notebook 2 1 32 1 half_rng zero_net () no_update (in_order 2))))) = 1
   \<and> \<not> isl (notebook 2 1 1 (- 1) half_rng zero_net () no_update (in_order 2))
   \<and> running_loss (snd (projr (notebook 2 1 1 (- 1) half_rng zero_net () no_update (in_order 2)))) = []
   \<and> \<not> isl (notebook 2 0 1 1 half_rng zero_net () no_update (in_order 2))
   \<and> length (running_loss (snd (projr (notebook 2 0 1 1 half_rng zero_net () no_update (in_order 2))))) = 2
   \<and> \<not> isl (data_cells 0 1 half_rng)
   \<and> notebook 0 1 32 1 half_rng zero_net () no_update (in_order 2) = Inl EmptyDataset
   \<and> \<not> isl (covariates 2 half_rng)
   \<and> length (fst (projr (covariates 2 half_rng))) = 2
   \<and> notebook 2 (- 1) 32 1 half_rng zero_net () no_update (in_order 2) = Inl NegativeCount"
proof -
  have a: "\<not> isl (notebook 2 1 32 1 half_rng zero_net () no_update (in_order 2))
      \<and> length (sim_y (fst (projr (notebook 2 1 32 1 half_rng zero_net () no_update (in_order 2))))) = 2
      \<and> length (running_loss (snd (projr (notebook 2 1 32 1 half_rng zero_net () no_update (in_order 2))))) = 1"
    using notebook_zero_net [of 2 1 32 1 half_rng] by (auto simp: generate_lengths)
  have b: "\<not> isl (notebook 2 1 1 (- 1) half_rng zero_net () no_update (in_order 2))
      \<and> running_loss (snd (projr (notebook 2 1 1 (- 1) half_rng zero_net () no_update (in_order 2)))) = []"
    using notebook_zero_net [of 2 1 1 "- 1" half_rng] by auto
  have c: "\<not> isl (notebook 2 0 1 1 half_rng zero_net () no_update (in_order 2))
      \<and> length (running_loss (snd (projr (notebook 2 0 1 1 half_rng zero_net () no_update (in_order 2))))) = 2"
    using notebook_zero_net [of 2 0 1 1 half_rng] by auto
  have d: "\<not> isl (data_cells 0 1 half_rng)"
    by (simp add: data_cells_generate)
  have e: "notebook 0 1 32 1 half_rng zero_net () no_update (in_order 2) = Inl EmptyDataset"
    by (rule notebook_empty)
  have f: "\<not> isl (covariates 2 half_rng) \<and> length (fst (projr (covariates 2 half_rng))) = 2"
    by (simp add: covariates_ok length_uniform_sample)
  have g: "notebook 2 (- 1) 32 1 half_rng zero_net () no_update (in_order 2) = Inl NegativeCount"
    by (simp add: notebook_def data_cells_neg_count)
  from a b c d e f g show ?thesis by blast
qed

text \<open>
  Claim C6, amended. The notebook checks no configuration value; where a run ends in an error
  it is one of the library's. A negative \<open>n\<close> ends the run in the first data cell, before
  anything is generated. A negative \<open>k\<close> with \<open>n > 0\<close> ends it in the second data cell, after the
  covariates have been generated, and \<open>n = 0\<close> ends it when the data loader is built, after
  both data cells have run. For \<open>n > 0\<close>, \<open>k \<ge> 0\<close> (also \<open>k = 0\<close>) and a batch size of at least 1
  (also above \<open>n\<close>), whatever the epoch count, the data are generated and the run is that of
  the training loop: with an epoch count of 0 or less it ends without a loss recorded; with
  a batch size of \<open>n\<close> or more each epoch has one minibatch, of all \<open>n\<close> sites; and a run
  that ends without an error has recorded one loss for each minibatch of each epoch.
\<close>

theorem notebook_accepts:
  "(n < 0 \<longrightarrow>
      covariates n g = Inl NegativeDimension
    \<and> notebook n k batch_size n_epoch g N0 o0 upd sampler = Inl NegativeDimension)
   \<and> (0 < n \<and> k < 0 \<longrightarrow>
      \<not> isl (covariates n g)
    \<and> notebook n k batch_size n_epoch g N0 o0 upd sampler = Inl NegativeCount)
   \<and> (n = 0 \<longrightarrow>
      data_cells n k g = Inr (generate 0 (nat k) g)
    \<and> notebook n k batch_size n_epoch g N0 o0 upd sampler = Inl EmptyDataset)
   \<and> (0 < n \<and> 0 \<le> k \<and> 0 < batch_size \<longrightarrow>
      data_cells n k g = Inr (generate (nat n) (nat k) g)
    \<and> notebook n k batch_size n_epoch g N0 o0 upd sampler
        = (case train upd (nat k) (nat batch_size) n_epoch
                 (zip (sim_x (fst (generate (nat n) (nat k) g)))
                      (sim_y (fst (generate (nat n) (nat k) g))))
                 sampler \<lparr>tr_net = N0, tr_opt = o0, running_loss = []\<rparr> of
             Inl e \<Rightarrow> Inl e
           | Inr st \<Rightarrow> Inr (fst (generate (nat n) (nat k) g), st))
    \<and> (n_epoch \<le> 0 \<longrightarrow>
          notebook n k batch_size n_epoch g N0 o0 upd sampler
            = Inr (fst (generate (nat n) (nat k) g),
                   \<lparr>tr_net = N0, tr_opt = o0, running_loss = []\<rparr>))
    \<and> (n \<le> batch_size \<and> sampler_order (nat n) order \<longrightarrow>
          batches (nat batch_size)
              (map (\<lambda>i. zip (sim_x (fst (generate (nat n) (nat k) g)))
                            (sim_y (fst (generate (nat n) (nat k) g))) ! i) order)
            = [map (\<lambda>i. zip (sim_x (fst (generate (nat n) (nat k) g)))
                            (sim_y (fst (generate (nat n) (nat k) g))) ! i) order])
    \<and> ((\<forall>e. sampler_order (nat n) (sampler e))
        \<and> notebook n k batch_size n_epoch g N0 o0 upd sampler = Inr (d, st) \<longrightarrow>
          length (running_loss st)
            = nat n_epoch * ((nat n + nat batch_size - 1) div nat batch_size)))"
proof (intro conjI impI)
  assume "n < 0"
  then show "covariates n g = Inl NegativeDimension"
    and "notebook n k batch_size n_epoch g N0 o0 upd sampler = Inl NegativeDimension"
    by (simp_all add: covariates_neg notebook_def data_cells_neg)
next
  assume a: "0 < n \<and> k < 0"
  then show "\<not> isl (covariates n g)"
    by (simp add: covariates_ok)
  from a show "notebook n k batch_size n_epoch g N0 o0 upd sampler = Inl NegativeCount"
    by (simp add: notebook_def data_cells_neg_count)
next
  assume z: "n = 0"
  then show "data_cells n k g = Inr (generate 0 (nat k) g)"
    using data_cells_generate [of 0 k g] by simp
  from z show "notebook n k batch_size n_epoch g N0 o0 upd sampler = Inl EmptyDataset"
    by (simp add: notebook_empty)
next
  assume a: "0 < n \<and> 0 \<le> k \<and> 0 < batch_size"
  then have n: "0 < n" and k: "0 \<le> k" and b: "0 < batch_size" by simp_all
  note stages = notebook_stages [OF n k b, of n_epoch g N0 o0 upd sampler]
  show "data_cells n k g = Inr (generate (nat n) (nat k) g)"
    using n k by (simp add: data_cells_generate)
  show "notebook n k batch_size n_epoch g N0 o0 upd sampler
        = (case train upd (nat k) (nat batch_size) n_epoch
                 (zip (sim_x (fst (generate (nat n) (nat k) g)))
                      (sim_y (fst (generate (nat n) (nat k) g))))
                 sampler \<lparr>tr_net = N0, tr_opt = o0, running_loss = []\<rparr> of
             Inl e \<Rightarrow> Inl e
           | Inr st \<Rightarrow> Inr (fst (generate (nat n) (nat k) g), st))"
    by (rule stages)
  show "notebook n k batch_size n_epoch g N0 o0 upd sampler
            = Inr (fst (generate (nat n) (nat k) g),
                   \<lparr>tr_net = N0, tr_opt = o0, running_loss = []\<rparr>)" if "n_epoch \<le> 0"
    using that by (simp add: stages train_no_epochs)
  show "batches (nat batch_size)
              (map (\<lambda>i. zip (sim_x (fst (generate (nat n) (nat k) g)))
                            (sim_y (fst (generate (nat n) (nat k) g))) ! i) order)
            = [map (\<lambda>i. zip (sim_x (fst (generate (nat n) (nat k) g)))
                            (sim_y (fst (generate (nat n) (nat k) g))) ! i) order]"
    if h: "n \<le> batch_size \<and> sampler_order (nat n) order"
  proof (rule batches_single)
    from h have l: "length order = nat n" by (simp add: sampler_order_def)
    then show "map (\<lambda>i. zip (sim_x (fst (generate (nat n) (nat k) g)))
                            (sim_y (fst (generate (nat n) (nat k) g))) ! i) order \<noteq> []"
      using n by auto
    from h have "nat n \<le> nat batch_size" by (simp add: nat_mono)
    then show "length (map (\<lambda>i. zip (sim_x (fst (generate (nat n) (nat k) g)))
                            (sim_y (fst (generate (nat n) (nat k) g))) ! i) order)
        \<le> nat batch_size"
      using l by simp
  qed
  show "length (running_loss st)
            = nat n_epoch * ((nat n + nat batch_size - 1) div nat batch_size)"
    if h: "(\<forall>e. sampler_order (nat n) (sampler e))
        \<and> notebook n k batch_size n_epoch g N0 o0 upd sampler = Inr (d, st)"
  proof -
    from h have l: "\<forall>e. length (sampler e) = nat n" by (simp add: sampler_order_def)
    from h have "train upd (nat k) (nat batch_size) n_epoch
                 (zip (sim_x (fst (generate (nat n) (nat k) g)))
                      (sim_y (fst (generate (nat n) (nat k) g))))
                 sampler \<lparr>tr_net = N0, tr_opt = o0, running_loss = []\<rparr> = Inr st"
      unfolding stages by (auto split: sum.splits)
    from train_trace [OF l this] show ?thesis by simp
  qed
qed

theorem notebook_accepts_witness:
  "covariates (- 1) half_rng = Inl NegativeDimension
   \<and> notebook (- 1) 1 32 1 half_rng zero_net () no_update (in_order 2) = Inl NegativeDimension
   \<and> notebook 2 (- 1) 32 1 half_rng zero_net () no_update (in_order 2) = Inl NegativeCount
   \<and> notebook 0 1 32 1 half_rng zero_net () no_update (in_order 2) = Inl EmptyDataset
   \<and> data_cells 2 0 half_rng = Inr (generate 2 0 half_rng)
   \<and> notebook 2 1 32 (- 1) half_rng zero_net () no_update (in_order 2)
       = Inr (fst (generate 2 1 half_rng), \<lparr>tr_net = zero_net, tr_opt = (), running_loss = []\<rparr>)
   \<and> sampler_order 2 (in_order 2 0)
   \<and> batches 32 (map (\<lambda>i. zip (sim_x (fst (generate 2 1 half_rng)))
                               (sim_y (fst (generate 2 1 half_rng))) ! i) (in_order 2 0))
       = [map (\<lambda>i. zip (sim_x (fst (generate 2 1 half_rng)))
                       (sim_y (fst (generate 2 1 half_rng))) ! i) (in_order 2 0)]
   \<and> \<not> isl (notebook 2 1 32 3 half_rng zero_net () no_update (in_order 2))
   \<and> length (running_loss (snd (projr (notebook 2 1 32 3 half_rng zero_net () no_update (in_order 2))))) = 3"
proof -
  have s: "\<forall>e. sampler_order (nat 2) (in_order 2 e)"
    by (simp add: sampler_order_def in_order_def)
  have o: "sampler_order 2 (in_order 2 0)"
    by (simp add: sampler_order_def in_order_def)
  define i :: "unit trainer" where "i = \<lparr>tr_net = zero_net, tr_opt = (), running_loss = []\<rparr>"
  note t = notebook_accepts [where g = half_rng and ?N0.0 = zero_net and ?o0.0 = "()"
      and upd = no_update and sampler = "in_order 2" and order = "in_order 2 0"
      and d = "fst (generate 2 1 half_rng)"]
  from t [of "- 1" 1 32 1 i]
  have a: "covariates (- 1) half_rng = Inl NegativeDimension
      \<and> notebook (- 1) 1 32 1 half_rng zero_net () no_update (in_order 2) = Inl NegativeDimension"
    by simp
  from t [of 2 "- 1" 32 1 i]
  have b: "notebook 2 (- 1) 32 1 half_rng zero_net () no_update (in_order 2) = Inl NegativeCount"
    by simp
  from t [of 0 1 32 1 i]
  have c: "notebook 0 1 32 1 half_rng zero_net () no_update (in_order 2) = Inl EmptyDataset"
    by simp
  from t [of 2 0 1 1 i]
  have d: "data_cells 2 0 half_rng = Inr (generate 2 0 half_rng)"
    by simp
  from t [of 2 1 32 "- 1" i]
  have e: "notebook 2 1 32 (- 1) half_rng zero_net () no_update (in_order 2)
       = Inr (fst (generate 2 1 half_rng), \<lparr>tr_net = zero_net, tr_opt = (), running_loss = []\<rparr>)"
    by (simp (no_asm_use)) blast
  from t [of 2 1 32 3 i] o
  have f: "batches 32 (map (\<lambda>i. zip (sim_x (fst (generate 2 1 half_rng)))
                               (sim_y (fst (generate 2 1 half_rng))) ! i) (in_order 2 0))
       = [map (\<lambda>i. zip (sim_x (fst (generate 2 1 half_rng)))
                       (sim_y (fst (generate 2 1 half_rng))) ! i) (in_order 2 0)]"
    by (simp (no_asm_use)) blast
  obtain st where st: "notebook 2 1 32 3 half_rng zero_net () no_update (in_order 2)
      = Inr (fst (generate 2 1 half_rng), st)"
    using notebook_zero_net [of 2 1 32 3 half_rng] by auto
  from t [of 2 1 32 3 st] s st
  have g: "length (running_loss st) = 3"
    by simp
  from a b c d e f g o st show ?thesis by simp
qed

end
